theory Spec2Isabelle
  imports Main
begin

section \<open>Data model\<close>

text \<open>
  The chat function of the repository (\<^verbatim>\<open>serve(async (req) => ...)\<close>) and the tables of the
  migration it reads and writes. Identifiers (UUIDs) are strings. A JavaScript string is a
  list of code units; the model covers the code units below 256, one \<^typ>\<open>char\<close> each.
  The body of a request is a JSON document of the type \<^verbatim>\<open>ChatRequest\<close>; an optional field
  that is absent is \<open>None\<close>.

  A calendar date is the number of the UTC day since 1970-01-01. The source holds dates as
  the text \<^verbatim>\<open>YYYY-MM-DD\<close> (\<^verbatim>\<open>toISOString().split('T')[0]\<close>, and the \<^verbatim>\<open>DATE\<close> column as the
  client returns it); two such texts are equal exactly when the days are, and the source
  only ever compares them with \<^verbatim>\<open>===\<close> and \<^verbatim>\<open>!==\<close>.
\<close>

type_synonym uuid = string
type_synonym date = int

datatype msg_role = RoleUser | RoleAssistant

record ChatMessage =
  role :: msg_role
  content :: string

record ChatRequest =
  message :: string
  conversationId :: "string option"
  stylePackId :: "string option"
  isBoost :: "bool option"

text \<open>Rows of \<^verbatim>\<open>public.conversations\<close>, \<^verbatim>\<open>public.messages\<close>, \<^verbatim>\<open>public.profiles\<close>
  and \<^verbatim>\<open>public.rewards\<close>, with the columns the function touches. The two counters of a
  profile are integers (the columns default to 0); its date may be \<^verbatim>\<open>NULL\<close>.\<close>

record conversation_row =
  conv_id :: uuid
  conv_user_id :: uuid
  title :: string

record message_row =
  msg_conversation_id :: uuid
  msg_role :: msg_role
  msg_content :: string
  tokens_used :: int
  response_time_ms :: int
  created_at :: int

record profile_row =
  total_points :: int
  current_streak :: int
  last_activity_date :: "date option"

record reward_row =
  rw_user_id :: uuid
  rw_type :: string
  rw_points :: int
  rw_description :: string

text \<open>
  The stored state. \<^verbatim>\<open>profiles\<close> has \<^verbatim>\<open>UNIQUE(user_id)\<close>, so it is a map from the user;
  \<^verbatim>\<open>style_packs\<close> maps the id of a pack to its \<^verbatim>\<open>system_prompt\<close>. The other tables are
  lists in insertion order. The function works with the caller's credentials: the state
  holds the rows the caller may read.
\<close>

record database =
  conversations :: "conversation_row list"
  messages :: "message_row list"
  profiles :: "uuid \<rightharpoonup> profile_row"
  rewards :: "reward_row list"
  style_packs :: "uuid \<rightharpoonup> string"

text \<open>What the completion service answers: a non-success status with its body, or a JSON
  document, of which the function reads \<^verbatim>\<open>candidates[0]?.content?.parts?.[0]?.text\<close> and
  \<^verbatim>\<open>usageMetadata?.totalTokenCount\<close> (each possibly missing). A call that gets no HTTP
  answer, or an answer that is not JSON, is outside the model.\<close>

datatype gemini_response =
    NotOk int string
  | OkJson "string option" "int option"

text \<open>
  Everything outside the function that one request depends on: the deployment's
  configuration, the request's method and header, the answer of the authentication
  provider, whether the storage layer accepts each write (the function acts with the
  caller's credentials, and the storage layer applies its own policy), the completion
  service's answer, and the clock readings. The two clock reads of the rewards task
  (\<^verbatim>\<open>new Date()\<close> and \<^verbatim>\<open>Date.now()\<close>, on consecutive lines) are one instant, \<open>reward_now\<close>.
\<close>

record env =
  is_options :: bool
  geminiApiKey :: "string option"
  supabaseUrl :: "string option"
  supabaseAnonKey :: "string option"
  authHeader :: "string option"
  getUser :: "string + uuid option"
  conv_insert :: "uuid option"
  history_ok :: bool
  gemini :: gemini_response
  user_msg_insert_ok :: bool
  ai_msg_insert_ok :: bool
  profile_update_ok :: bool
  reward_insert_ok :: bool
  startTime :: int
  endTime :: int
  user_msg_time :: int
  ai_msg_time :: int
  reward_now :: int

section \<open>Reward accrual\<close>

text \<open>\<^verbatim>\<open>new Date(ms).toISOString().split('T')[0]\<close>: the UTC day of an instant in milliseconds.\<close>

definition toISODate :: "int \<Rightarrow> date" where
  "toISODate ms = ms div (24 * 60 * 60 * 1000)"

text \<open>A value of type \<^verbatim>\<open>boolean | undefined\<close> in a condition.\<close>

definition truthy_bool :: "bool option \<Rightarrow> bool" where
  "truthy_bool b = (b = Some True)"

text \<open>
  Lines 247 to 258: the base reward and the streak.
  \<^verbatim>\<open>
  let pointsToAdd = 1; let newStreak = profile.current_streak;
  if (profile.last_activity_date !== today) {
    if (profile.last_activity_date === yesterday) { newStreak += 1; pointsToAdd += 5; }
    else { newStreak = 1; } }
  \<close>
  The result is the pair \<open>(pointsToAdd, newStreak)\<close>.
\<close>

definition streak_step :: "profile_row \<Rightarrow> date \<Rightarrow> date \<Rightarrow> int \<times> int" where
  "streak_step profile today yesterday =
     (let pointsToAdd = 1; newStreak = current_streak profile in
      if last_activity_date profile \<noteq> Some today then
        if last_activity_date profile = Some yesterday then (pointsToAdd + 5, newStreak + 1)
        else (pointsToAdd, 1)
      else (pointsToAdd, newStreak))"

text \<open>Lines 260 to 263:
  \<^verbatim>\<open>if (isBoost && profile.total_points >= 10) { pointsToAdd -= 10; }\<close>\<close>

definition boost_step :: "bool option \<Rightarrow> profile_row \<Rightarrow> int \<Rightarrow> int" where
  "boost_step boost profile pointsToAdd =
     (if truthy_bool boost \<and> total_points profile \<ge> 10 then pointsToAdd - 10 else pointsToAdd)"

text \<open>The decimal text of a number, as a template literal prints an integer.\<close>

fun string_of_nat :: "nat \<Rightarrow> string" where
  "string_of_nat n =
     (if n < 10 then [''0123456789'' ! n]
      else string_of_nat (n div 10) @ [''0123456789'' ! (n mod 10)])"

declare string_of_nat.simps [simp del]

definition string_of_int :: "int \<Rightarrow> string" where
  "string_of_int i = (if i < 0 then CHR ''-'' # string_of_nat (nat (- i)) else string_of_nat (nat i))"

text \<open>Lines 281 to 287: the category and the description of the ledger entry.\<close>

definition reward_type :: "int \<Rightarrow> string" where
  "reward_type pointsToAdd =
     (if pointsToAdd > 1 then ''streak'' else if pointsToAdd > 0 then ''message'' else ''boost'')"

definition reward_description :: "int \<Rightarrow> int \<Rightarrow> string" where
  "reward_description pointsToAdd newStreak =
     (if pointsToAdd > 1 then ''Daily streak: '' @ string_of_int newStreak @ '' days''
      else if pointsToAdd > 0 then ''Message sent'' else ''Boost used'')"

text \<open>The two values the task computes from a profile: \<open>(pointsToAdd, newStreak)\<close> after
  the boost deduction.\<close>

definition accrual :: "profile_row \<Rightarrow> int \<Rightarrow> bool option \<Rightarrow> int \<times> int" where
  "accrual profile now boost =
     (let today = toISODate now;
          yesterday = toISODate (now - 24 * 60 * 60 * 1000);
          (pointsToAdd, newStreak) = streak_step profile today yesterday
      in (boost_step boost profile pointsToAdd, newStreak))"

text \<open>
  The background task (lines 233 to 295). It loads the caller's profile; with one, it
  writes the profile and, when \<open>pointsToAdd\<close> is not 0, one ledger entry. The source does
  not look at the result of either write, so a write the storage layer refuses leaves the
  table as it was and the task goes on.
\<close>

definition reward_task :: "env \<Rightarrow> uuid \<Rightarrow> bool option \<Rightarrow> database \<Rightarrow> database" where
  "reward_task e user boost db =
     (case profiles db user of
        None \<Rightarrow> db
      | Some profile \<Rightarrow>
          (let today = toISODate (reward_now e);
               (pointsToAdd, newStreak) = accrual profile (reward_now e) boost;
               db1 = (if profile_update_ok e
                      then db\<lparr>profiles := (profiles db)(user \<mapsto>
                             profile\<lparr>total_points := total_points profile + pointsToAdd,
                                     current_streak := newStreak,
                                     last_activity_date := Some today\<rparr>)\<rparr>
                      else db)
           in if pointsToAdd \<noteq> 0 \<and> reward_insert_ok e
              then db1\<lparr>rewards := rewards db1 @
                     [\<lparr>rw_user_id = user, rw_type = reward_type pointsToAdd,
                       rw_points = pointsToAdd,
                       rw_description = reward_description pointsToAdd newStreak\<rparr>]\<rparr>
              else db1))"

section \<open>The content screen\<close>

text \<open>
  Line 200: \<^verbatim>\<open>/\b(violence|hate|illegal|harmful)\b/i.test(message.toLowerCase())\<close>.

  \<^verbatim>\<open>\w\<close> and \<^verbatim>\<open>\b\<close> of a pattern without the \<^verbatim>\<open>u\<close> flag know the ASCII letters, the
  digits and the underscore only.
\<close>

definition is_word_char :: "char \<Rightarrow> bool" where
  "is_word_char c =
     (let n = (of_char c :: nat) in
      (48 \<le> n \<and> n \<le> 57) \<or> (65 \<le> n \<and> n \<le> 90) \<or> n = 95 \<or> (97 \<le> n \<and> n \<le> 122))"

text \<open>\<^verbatim>\<open>toLowerCase\<close> on the code units below 256: the ASCII capitals, and the capitals
  of Latin-1 (U+00C0 to U+00DE without the multiplication sign U+00D7).\<close>

definition lower_char :: "char \<Rightarrow> char" where
  "lower_char c =
     (let n = (of_char c :: nat) in
      if (65 \<le> n \<and> n \<le> 90) \<or> (192 \<le> n \<and> n \<le> 222 \<and> n \<noteq> 215) then char_of (n + 32) else c)"

definition toLowerCase :: "string \<Rightarrow> string" where
  "toLowerCase s = map lower_char s"

text \<open>
  The \<^verbatim>\<open>i\<close> flag compares the canonical (upper-case) forms of a pattern character and an
  input character. A character outside ASCII never has an ASCII canonical form, and the
  pattern has ASCII letters only, so the ASCII upper case decides the comparison.
\<close>

definition upper_ascii :: "char \<Rightarrow> char" where
  "upper_ascii c =
     (let n = (of_char c :: nat) in if 97 \<le> n \<and> n \<le> 122 then char_of (n - 32) else c)"

definition ci_eq :: "char \<Rightarrow> char \<Rightarrow> bool" where
  "ci_eq p c = (upper_ascii p = upper_ascii c)"

definition banned_words :: "string list" where
  "banned_words = [''violence'', ''hate'', ''illegal'', ''harmful'']"

text \<open>One alternative of the group, read at the head of the input: the input left after
  it, or \<open>None\<close>.\<close>

fun match_literal :: "string \<Rightarrow> string \<Rightarrow> string option" where
  "match_literal [] s = Some s"
| "match_literal (p # ps) [] = None"
| "match_literal (p # ps) (c # cs) = (if ci_eq p c then match_literal ps cs else None)"

text \<open>\<^verbatim>\<open>\b\<close> between two neighbours; \<open>None\<close> is the start or the end of the input.\<close>

definition word_boundary :: "char option \<Rightarrow> char option \<Rightarrow> bool" where
  "word_boundary a b =
     ((case a of None \<Rightarrow> False | Some c \<Rightarrow> is_word_char c) \<noteq>
      (case b of None \<Rightarrow> False | Some c \<Rightarrow> is_word_char c))"

definition head_opt :: "string \<Rightarrow> char option" where
  "head_opt s = (case s of [] \<Rightarrow> None | c # _ \<Rightarrow> Some c)"

text \<open>An alternative \<open>w\<close> followed by \<^verbatim>\<open>\b\<close>, at the head of \<open>s\<close>; \<open>prev\<close> is the character
  before \<open>s\<close>. When an alternative fails the matcher goes on to the next one.\<close>

definition match_alt :: "char option \<Rightarrow> string \<Rightarrow> string \<Rightarrow> bool" where
  "match_alt prev w s =
     (case match_literal w s of
        None \<Rightarrow> False
      | Some rest \<Rightarrow>
          word_boundary (if w = [] then prev else Some (last (take (length w) s))) (head_opt rest))"

definition match_here :: "char option \<Rightarrow> string \<Rightarrow> bool" where
  "match_here prev s =
     (word_boundary prev (head_opt s) \<and> list_ex (\<lambda>w. match_alt prev w s) banned_words)"

text \<open>\<^verbatim>\<open>test\<close> tries every start position from left to right.\<close>

fun regex_test :: "char option \<Rightarrow> string \<Rightarrow> bool" where
  "regex_test prev [] = match_here prev []"
| "regex_test prev (c # cs) = (match_here prev (c # cs) \<or> regex_test (Some c) cs)"

definition isHarmful :: "string \<Rightarrow> bool" where
  "isHarmful msg = regex_test None (toLowerCase msg)"

text \<open>
  The content screen in the specification's words: some banned word occurs in the
  lower-cased message as a substring. It is compared with \<open>isHarmful\<close> below.
\<close>

fun starts_with :: "string \<Rightarrow> string \<Rightarrow> bool" where
  "starts_with [] s = True"
| "starts_with (p # ps) [] = False"
| "starts_with (p # ps) (c # cs) = (p = c \<and> starts_with ps cs)"

fun has_substring :: "string \<Rightarrow> string \<Rightarrow> bool" where
  "has_substring w [] = starts_with w []"
| "has_substring w (c # cs) = (starts_with w (c # cs) \<or> has_substring w cs)"

definition spec_banned_substring :: "string \<Rightarrow> bool" where
  "spec_banned_substring msg = list_ex (\<lambda>w. has_substring w (toLowerCase msg)) banned_words"

text \<open>Two classes of characters, for the proofs about the screen: the ASCII capitals
  and the ASCII small letters.\<close>

definition is_capital :: "char \<Rightarrow> bool" where
  "is_capital c = (65 \<le> (of_char c :: nat) \<and> (of_char c :: nat) \<le> 90)"

definition is_small :: "char \<Rightarrow> bool" where
  "is_small c = (97 \<le> (of_char c :: nat) \<and> (of_char c :: nat) \<le> 122)"

section \<open>The turn handler\<close>

datatype error =
    GeminiKeyNotConfigured
  | SupabaseConfigMissing
  | NoAuthorizationHeader
  | AuthenticationFailed string
  | NoUserFound
  | FailedToCreateConversation
  | FailedToFetchHistory
  | GeminiApiError int string
  | InvalidGeminiResponse

text \<open>The two errors of the completion service, the specification's \<^verbatim>\<open>UpstreamError\<close>.\<close>

fun is_upstream_error :: "error \<Rightarrow> bool" where
  "is_upstream_error (GeminiApiError status body) = True"
| "is_upstream_error InvalidGeminiResponse = True"
| "is_upstream_error other = False"

record response_body =
  response :: string
  res_conversationId :: uuid
  tokensUsed :: int
  responseTime :: int
  pointsAwarded :: bool

text \<open>The answer to the preflight, the JSON answer of a turn, or the answer with status
  500 that the outer \<^verbatim>\<open>catch\<close> builds from the error thrown.\<close>

datatype http_response = Preflight | Success response_body | Failure error

datatype gemini_role = GeminiUser | GeminiModel

type_synonym gemini_turn = "gemini_role \<times> string"

text \<open>What one request leaves behind: the answer, the \<^verbatim>\<open>contents\<close> sent to the completion
  service (when the request came that far) and the stored state. The rewards task runs
  detached from the answer; the state is the one after it has finished.\<close>

record outcome =
  reply :: http_response
  prompt_sent :: "gemini_turn list option"
  db_after :: database

text \<open>A string that may be missing, in a condition: \<^verbatim>\<open>undefined\<close>, \<^verbatim>\<open>null\<close> and the empty
  string are falsy.\<close>

definition truthy :: "string option \<Rightarrow> bool" where
  "truthy s = (case s of None \<Rightarrow> False | Some v \<Rightarrow> v \<noteq> [])"

text \<open>Lines 31 to 66: configuration, the authorization header, the caller.\<close>

definition authenticate :: "env \<Rightarrow> error + uuid" where
  "authenticate e =
     (if \<not> truthy (geminiApiKey e) then Inl GeminiKeyNotConfigured
      else if \<not> truthy (supabaseUrl e) \<or> \<not> truthy (supabaseAnonKey e) then Inl SupabaseConfigMissing
      else if \<not> truthy (authHeader e) then Inl NoAuthorizationHeader
      else case getUser e of
             Inl userError \<Rightarrow> Inl (AuthenticationFailed userError)
           | Inr None \<Rightarrow> Inl NoUserFound
           | Inr (Some user) \<Rightarrow> Inr user)"

text \<open>Line 82: \<^verbatim>\<open>message.slice(0, 50) + (message.length > 50 ? '...' : '')\<close>.\<close>

definition new_title :: "string \<Rightarrow> string" where
  "new_title msg = take 50 msg @ (if length msg > 50 then ''...'' else [])"

text \<open>Lines 76 to 93: the conversation of the turn, created when the request names none.
  \<open>conv_insert\<close> is the storage layer's answer to the insert: the id of the new row, or
  \<open>None\<close> for \<^verbatim>\<open>convError\<close>.\<close>

definition create_conversation :: "env \<Rightarrow> uuid \<Rightarrow> ChatRequest \<Rightarrow> database \<Rightarrow> error + uuid \<times> database" where
  "create_conversation e user req db =
     (case conv_insert e of
        None \<Rightarrow> Inl FailedToCreateConversation
      | Some newId \<Rightarrow>
          Inr (newId, db\<lparr>conversations := conversations db @
                 [\<lparr>conv_id = newId, conv_user_id = user, title = new_title (message req)\<rparr>]\<rparr>))"

definition resolve_conversation :: "env \<Rightarrow> uuid \<Rightarrow> ChatRequest \<Rightarrow> database \<Rightarrow> error + uuid \<times> database" where
  "resolve_conversation e user req db =
     (case conversationId req of
        None \<Rightarrow> create_conversation e user req db
      | Some currentConversationId \<Rightarrow>
          if currentConversationId = [] then create_conversation e user req db
          else Inr (currentConversationId, db))"

text \<open>Lines 96 to 101:
  \<^verbatim>\<open>.select('role, content').eq('conversation_id', ...).order('created_at', { ascending: true }).limit(10)\<close>.
  Rows with the same \<open>created_at\<close> stay in insertion order.\<close>

definition load_history :: "uuid \<Rightarrow> database \<Rightarrow> ChatMessage list" where
  "load_history currentConversationId db =
     map (\<lambda>m. \<lparr>role = msg_role m, content = msg_content m\<rparr>)
       (take 10 (sort_key created_at
          (filter (\<lambda>m. msg_conversation_id m = currentConversationId) (messages db))))"

text \<open>
  The history in the specification's words: up to the most recent 10 messages of the
  conversation, oldest first. It is compared with \<open>load_history\<close> below.
\<close>

definition spec_recent_history :: "uuid \<Rightarrow> database \<Rightarrow> ChatMessage list" where
  "spec_recent_history currentConversationId db =
     (let rows = sort_key created_at
                   (filter (\<lambda>m. msg_conversation_id m = currentConversationId) (messages db))
      in map (\<lambda>m. \<lparr>role = msg_role m, content = msg_content m\<rparr>) (drop (length rows - 10) rows))"

text \<open>Lines 109 to 120: the system prompt, the style pack's when the request names a
  pack that is found.\<close>

definition system_prompt_for :: "ChatRequest \<Rightarrow> database \<Rightarrow> string" where
  "system_prompt_for req db =
     (case stylePackId req of
        None \<Rightarrow> ''You are a helpful AI assistant.''
      | Some packId \<Rightarrow>
          if packId = [] then ''You are a helpful AI assistant.''
          else (case style_packs db packId of
                  Some system_prompt \<Rightarrow> system_prompt
                | None \<Rightarrow> ''You are a helpful AI assistant.''))"

text \<open>Lines 123 to 138: the turns sent to the completion service.\<close>

definition build_messages :: "string \<Rightarrow> ChatMessage list \<Rightarrow> string \<Rightarrow> gemini_turn list" where
  "build_messages systemPrompt messageHistory msg =
     [(GeminiUser, systemPrompt),
      (GeminiModel, ''I understand. I will respond according to this personality and style.'')]
     @ map (\<lambda>m. if role m = RoleUser then (GeminiUser, content m) else (GeminiModel, content m))
         messageHistory
     @ [(GeminiUser, msg)]"

text \<open>Lines 180 to 197: the text and the token count of the answer, or the error thrown.\<close>

definition read_gemini :: "gemini_response \<Rightarrow> error + string \<times> int" where
  "read_gemini r =
     (case r of
        NotOk status errorText \<Rightarrow> Inl (GeminiApiError status errorText)
      | OkJson text totalTokenCount \<Rightarrow>
          (case text of
             None \<Rightarrow> Inl InvalidGeminiResponse
           | Some aiResponse \<Rightarrow>
               if aiResponse = [] then Inl InvalidGeminiResponse
               else Inr (aiResponse, case totalTokenCount of None \<Rightarrow> 0 | Some n \<Rightarrow> n)))"

text \<open>Lines 203 to 228: the two rows of the turn. A refused insert is logged and the
  function goes on. The user's row takes the column defaults for the two metrics.\<close>

definition user_message_row :: "env \<Rightarrow> uuid \<Rightarrow> string \<Rightarrow> message_row" where
  "user_message_row e currentConversationId msg =
     \<lparr>msg_conversation_id = currentConversationId, msg_role = RoleUser, msg_content = msg,
      tokens_used = 0, response_time_ms = 0, created_at = user_msg_time e\<rparr>"

definition ai_message_row :: "env \<Rightarrow> uuid \<Rightarrow> string \<Rightarrow> int \<Rightarrow> int \<Rightarrow> message_row" where
  "ai_message_row e currentConversationId aiResponse tokens time =
     \<lparr>msg_conversation_id = currentConversationId, msg_role = RoleAssistant,
      msg_content = aiResponse, tokens_used = tokens, response_time_ms = time,
      created_at = ai_msg_time e\<rparr>"

definition save_messages :: "env \<Rightarrow> uuid \<Rightarrow> string \<Rightarrow> string \<Rightarrow> int \<Rightarrow> int \<Rightarrow> database \<Rightarrow> database" where
  "save_messages e currentConversationId msg aiResponse tokens time db =
     (let db1 = (if user_msg_insert_ok e
                 then db\<lparr>messages := messages db @ [user_message_row e currentConversationId msg]\<rparr>
                 else db)
      in if ai_msg_insert_ok e
         then db1\<lparr>messages := messages db1 @
                [ai_message_row e currentConversationId aiResponse tokens time]\<rparr>
         else db1)"

text \<open>Lines 199 to 309: the turn once the completion service has answered.\<close>

definition finish_turn :: "env \<Rightarrow> uuid \<Rightarrow> ChatRequest \<Rightarrow> uuid \<Rightarrow> gemini_turn list \<Rightarrow> string \<Rightarrow> int \<Rightarrow> database \<Rightarrow> outcome" where
  "finish_turn e user req currentConversationId contents aiResponse tokens db =
     (let time = endTime e - startTime e;
          harmful = isHarmful (message req);
          db1 = save_messages e currentConversationId (message req) aiResponse tokens time db;
          db2 = (if \<not> harmful then reward_task e user (isBoost req) db1 else db1)
      in \<lparr>reply = Success \<lparr>response = aiResponse, res_conversationId = currentConversationId,
                           tokensUsed = tokens, responseTime = time,
                           pointsAwarded = (\<not> harmful)\<rparr>,
          prompt_sent = Some contents, db_after = db2\<rparr>)"

text \<open>Lines 95 to 197: history, prompt and the call of the completion service.\<close>

definition run_turn :: "env \<Rightarrow> uuid \<Rightarrow> ChatRequest \<Rightarrow> uuid \<Rightarrow> database \<Rightarrow> outcome" where
  "run_turn e user req currentConversationId db =
     (if \<not> history_ok e
      then \<lparr>reply = Failure FailedToFetchHistory, prompt_sent = None, db_after = db\<rparr>
      else
        (let messageHistory = load_history currentConversationId db;
             systemPrompt = system_prompt_for req db;
             contents = build_messages systemPrompt messageHistory (message req)
         in case read_gemini (gemini e) of
              Inl err \<Rightarrow> \<lparr>reply = Failure err, prompt_sent = Some contents, db_after = db\<rparr>
            | Inr (aiResponse, tokens) \<Rightarrow>
                finish_turn e user req currentConversationId contents aiResponse tokens db))"

text \<open>The whole function (lines 22 to 324).\<close>

definition handler :: "env \<Rightarrow> ChatRequest \<Rightarrow> database \<Rightarrow> outcome" where
  "handler e req db =
     (if is_options e then \<lparr>reply = Preflight, prompt_sent = None, db_after = db\<rparr>
      else case authenticate e of
             Inl err \<Rightarrow> \<lparr>reply = Failure err, prompt_sent = None, db_after = db\<rparr>
           | Inr user \<Rightarrow>
               (case resolve_conversation e user req db of
                  Inl err \<Rightarrow> \<lparr>reply = Failure err, prompt_sent = None, db_after = db\<rparr>
                | Inr (currentConversationId, db1) \<Rightarrow> run_turn e user req currentConversationId db1))"

text \<open>The answers of the completion service that the function rejects: a non-success
  status, a document without the text, and a document whose text is empty (the condition
  of line 190 takes the empty string for a missing one).\<close>

fun upstream_failure :: "gemini_response \<Rightarrow> bool" where
  "upstream_failure (NotOk status errorText) = True"
| "upstream_failure (OkJson None totalTokenCount) = True"
| "upstream_failure (OkJson (Some text) totalTokenCount) = (text = [])"

section \<open>A sequence of accruals\<close>

text \<open>
  The rewards task run once per call, in order, for one user; the list holds the state
  before the first call and the state after each call. A call is the environment it runs
  in and its boost flag.
\<close>

fun accrual_trace :: "uuid \<Rightarrow> database \<Rightarrow> (env \<times> bool option) list \<Rightarrow> database list" where
  "accrual_trace user db [] = [db]"
| "accrual_trace user db ((e, boost) # calls) = db # accrual_trace user (reward_task e user boost db) calls"

definition stored_date :: "uuid \<Rightarrow> database \<Rightarrow> date option" where
  "stored_date user db = (case profiles db user of None \<Rightarrow> None | Some p \<Rightarrow> last_activity_date p)"

text \<open>The order of stored dates: no date yet (\<^verbatim>\<open>NULL\<close>) comes before every date.\<close>

fun date_le :: "date option \<Rightarrow> date option \<Rightarrow> bool" where
  "date_le None d = True"
| "date_le (Some a) None = False"
| "date_le (Some a) (Some b) = (a \<le> b)"

section \<open>Example data\<close>

text \<open>A profile last active on day 19999 with 25 points and a streak of 3, a store holding
  it, and an environment in which every outside call succeeds; its clocks read day 20000.\<close>

definition demo_profile :: profile_row where
  "demo_profile = \<lparr>total_points = 25, current_streak = 3, last_activity_date = Some 19999\<rparr>"

definition demo_db :: database where
  "demo_db = \<lparr>conversations = [], messages = [], profiles = [''u1'' \<mapsto> demo_profile],
     rewards = [], style_packs = Map.empty\<rparr>"

definition demo_env :: env where
  "demo_env = \<lparr>is_options = False, geminiApiKey = Some ''key'', supabaseUrl = Some ''url'',
     supabaseAnonKey = Some ''anon'', authHeader = Some ''Bearer t'', getUser = Inr (Some ''u1''),
     conv_insert = Some ''c1'', history_ok = True, gemini = OkJson (Some ''Hello!'') (Some 42),
     user_msg_insert_ok = True, ai_msg_insert_ok = True, profile_update_ok = True,
     reward_insert_ok = True, startTime = 1728000005000, endTime = 1728000005250,
     user_msg_time = 1728000005260, ai_msg_time = 1728000005270, reward_now = 1728000005300\<rparr>"

text \<open>The same environment one day later, and a store whose profile carries a date after
  the clock of the example environment.\<close>

definition demo_env_next :: env where
  "demo_env_next = demo_env\<lparr>reward_now := 1728086405300\<rparr>"

definition future_db :: database where
  "future_db = demo_db\<lparr>profiles := [''u1'' \<mapsto> demo_profile\<lparr>last_activity_date := Some 20005\<rparr>]\<rparr>"

text \<open>Requests: one with a banned word as a word of its own, one with a banned word inside
  a longer word, one longer than 50 characters. An environment whose completion service
  answers 503. A conversation of eleven messages, \<open>m1\<close> the oldest, and the next turn in it.\<close>

definition hate_request :: ChatRequest where
  "hate_request = \<lparr>message = ''I HATE this'', conversationId = None, stylePackId = None,
     isBoost = None\<rparr>"

definition hateful_request :: ChatRequest where
  "hateful_request = \<lparr>message = ''hateful'', conversationId = None, stylePackId = None,
     isBoost = None\<rparr>"


definition long_request :: ChatRequest where
  "long_request = \<lparr>message = ''Please explain how the streak bonus is computed for my account'',
     conversationId = None, stylePackId = None, isBoost = None\<rparr>"

definition failing_env :: env where
  "failing_env = demo_env\<lparr>gemini := NotOk 503 ''unavailable''\<rparr>"

definition numbered_message :: "int \<Rightarrow> message_row" where
  "numbered_message n =
     \<lparr>msg_conversation_id = ''c7'',
      msg_role = (if n mod 2 = 1 then RoleUser else RoleAssistant),
      msg_content = ''m'' @ string_of_int n,
      tokens_used = 0, response_time_ms = 0, created_at = 1727000000000 + n\<rparr>"

definition eleven_db :: database where
  "eleven_db = demo_db\<lparr>
     conversations := [\<lparr>conv_id = ''c7'', conv_user_id = ''u1'', title = ''m1''\<rparr>],
     messages := map numbered_message [1, 2, 3, 4, 5, 6, 7, 8, 9, 10, 11]\<rparr>"

definition next_request :: ChatRequest where
  "next_request = \<lparr>message = ''m12'', conversationId = Some ''c7'', stylePackId = None,
     isBoost = None\<rparr>"

section \<open>Properties of the reward accrual\<close>


lemma reward_task_absent: "profiles db user = None \<Longrightarrow> reward_task e user boost db = db"
  by (simp add: reward_task_def)

lemma reward_task_profiles:
  "profiles db user = Some profile \<Longrightarrow>
   profiles (reward_task e user boost db) =
     (if profile_update_ok e then
     (profiles db)(user \<mapsto> profile\<lparr>total_points := total_points profile + fst (accrual profile (reward_now e) boost),
        current_streak := snd (accrual profile (reward_now e) boost),
        last_activity_date := Some (toISODate (reward_now e))\<rparr>) else profiles db)"
  by (simp add: reward_task_def Let_def split: prod.splits)


text \<open>
  C1. With an existing profile, before the boost deduction: when the stored
  \<open>last_activity_date\<close> is today, the streak is unchanged and \<open>pointsToAdd\<close> is 1; when it
  is yesterday, which is today minus one day, the streak grows by 1 and \<open>pointsToAdd\<close> is 6;
  in every other case (a gap, or no stored date at all) the streak is 1 and \<open>pointsToAdd\<close>
  is 1. The pair is \<open>(pointsToAdd, newStreak)\<close>.
\<close>

theorem streak_branches:
  "toISODate (now - 24 * 60 * 60 * 1000) = toISODate now - 1 \<and>
   streak_step profile (toISODate now) (toISODate (now - 24 * 60 * 60 * 1000)) =
     (if last_activity_date profile = Some (toISODate now) then (1, current_streak profile)
      else if last_activity_date profile = Some (toISODate now - 1)
           then (6, current_streak profile + 1)
      else (1, 1))"
  by (simp add: streak_step_def toISODate_def)

theorem streak_branches_witness:
  "streak_step demo_profile (toISODate 1728000005300) (toISODate (1728000005300 - 24 * 60 * 60 * 1000)) = (6, 4)
   \<and> toISODate 1728000005300 = 20000"
  using streak_branches [of 1728000005300 demo_profile]
  by (simp add: demo_profile_def toISODate_def)

text \<open>
  C2. The boost deduction: when \<open>isBoost\<close> is true and the stored \<open>total_points\<close> of the
  loaded profile is at least 10, the task takes 10 from the \<open>pointsToAdd\<close> of the streak
  branches, and otherwise leaves it; the streak is not touched. A boost on a day already
  credited gives \<open>-9\<close>; with fewer than 10 points a boost changes nothing.
\<close>

theorem boost_deduction:
  "accrual profile now boost =
     (let (pointsToAdd, newStreak) =
            streak_step profile (toISODate now) (toISODate (now - 24 * 60 * 60 * 1000))
      in (if boost = Some True \<and> total_points profile \<ge> 10 then pointsToAdd - 10 else pointsToAdd,
          newStreak))
   \<and> (boost = Some True \<and> total_points profile \<ge> 10 \<and>
        last_activity_date profile = Some (toISODate now) \<longrightarrow> fst (accrual profile now boost) = -9)
   \<and> (total_points profile < 10 \<longrightarrow>
        fst (accrual profile now boost) =
        fst (streak_step profile (toISODate now) (toISODate (now - 24 * 60 * 60 * 1000))))"
  by (simp add: accrual_def boost_step_def truthy_bool_def streak_step_def Let_def split: prod.splits)

theorem boost_deduction_witness:
  "total_points demo_profile \<ge> 10 \<and>
   last_activity_date (demo_profile\<lparr>last_activity_date := Some 20000\<rparr>) = Some (toISODate 1728000005300) \<and>
   accrual (demo_profile\<lparr>last_activity_date := Some 20000\<rparr>) 1728000005300 (Some True) = (-9, 3) \<and>
   accrual (demo_profile\<lparr>total_points := 9\<rparr>) 1728000005300 (Some True) = (6, 4)"
  using boost_deduction [of "demo_profile\<lparr>last_activity_date := Some 20000\<rparr>" 1728000005300 "Some True"]
        boost_deduction [of "demo_profile\<lparr>total_points := 9\<rparr>" 1728000005300 "Some True"]
  by (simp add: demo_profile_def toISODate_def streak_step_def)



lemma finish_turn_reply:
  "reply (finish_turn e user req cid contents aiResponse tokens db) =
     Success \<lparr>response = aiResponse, res_conversationId = cid, tokensUsed = tokens,
              responseTime = endTime e - startTime e,
              pointsAwarded = (\<not> isHarmful (message req))\<rparr>"
  by (simp add: finish_turn_def Let_def)

lemma save_messages_other:
  "profiles (save_messages e cid msg ai tokens time db) = profiles db \<and>
   rewards (save_messages e cid msg ai tokens time db) = rewards db \<and>
   conversations (save_messages e cid msg ai tokens time db) = conversations db"
  by (simp add: save_messages_def Let_def)

lemma finish_turn_db:
  "db_after (finish_turn e user req cid contents aiResponse tokens db) =
     (if isHarmful (message req)
      then save_messages e cid (message req) aiResponse tokens (endTime e - startTime e) db
      else reward_task e user (isBoost req)
             (save_messages e cid (message req) aiResponse tokens (endTime e - startTime e) db))"
  by (simp add: finish_turn_def Let_def)

text \<open>
  C8. When the caller has no profile the task changes nothing: it returns the store as it
  was (no profile row written, no ledger entry appended). The task has no error to
  return, and the turn it belongs to still answers with success.
\<close>

theorem absent_profile_noop:
  assumes "profiles db user = None"
  shows "reward_task e user boost db = db \<and>
         (\<exists>body. reply (finish_turn e user req cid contents aiResponse tokens db) = Success body) \<and>
         profiles (db_after (finish_turn e user req cid contents aiResponse tokens db)) = profiles db \<and>
         rewards (db_after (finish_turn e user req cid contents aiResponse tokens db)) = rewards db"
  using assms
  by (simp add: reward_task_absent finish_turn_reply finish_turn_db save_messages_other)

theorem absent_profile_noop_witness:
  "profiles demo_db ''u2'' = None \<and> reward_task demo_env ''u2'' (Some True) demo_db = demo_db"
proof -
  have p: "profiles demo_db ''u2'' = None" by (simp add: demo_db_def)
  from absent_profile_noop [OF p] p show ?thesis by simp
qed



lemma date_le_refl: "date_le d d"
  by (cases d) auto

lemma stored_date_step:
  "stored_date user (reward_task e user boost db) = stored_date user db \<or>
   stored_date user (reward_task e user boost db) = Some (toISODate (reward_now e))"
  by (cases "profiles db user")
     (auto simp: stored_date_def reward_task_absent reward_task_profiles)

lemma stored_date_step_updated:
  "profiles db user \<noteq> None \<Longrightarrow> profile_update_ok e \<Longrightarrow>
   stored_date user (reward_task e user boost db) = Some (toISODate (reward_now e))"
  by (auto simp: stored_date_def reward_task_profiles)

lemma trace_dates:
  "d \<in> set (map (stored_date user) (accrual_trace user db calls)) \<Longrightarrow>
   d = stored_date user db \<or> d \<in> set (map (\<lambda>c. Some (toISODate (reward_now (fst c)))) calls)"
proof (induction calls arbitrary: db)
  case Nil
  then show ?case by simp
next
  case (Cons c calls)
  obtain e boost where c: "c = (e, boost)" by (cases c)
  from Cons.prems c
  consider "d = stored_date user db"
    | "d \<in> set (map (stored_date user) (accrual_trace user (reward_task e user boost db) calls))"
    by auto
  then show ?case
  proof cases
    case 1
    then show ?thesis by simp
  next
    case 2
    from Cons.IH [OF 2] stored_date_step [of user e boost db] c
    show ?thesis by auto
  qed
qed

lemma trace_sorted:
  "sorted_wrt date_le (stored_date user db # map (\<lambda>c. Some (toISODate (reward_now (fst c)))) calls) \<Longrightarrow>
   sorted_wrt date_le (map (stored_date user) (accrual_trace user db calls))"
proof (induction calls arbitrary: db)
  case Nil
  then show ?case by simp
next
  case (Cons c calls)
  obtain e boost where c: "c = (e, boost)" by (cases c)
  let ?db' = "reward_task e user boost db"
  let ?days = "map (\<lambda>c. Some (toISODate (reward_now (fst c)))) calls"
  from Cons.prems c have
    first: "date_le (stored_date user db) (Some (toISODate (reward_now e)))" and
    rest0: "\<forall>d\<in>set ?days. date_le (stored_date user db) d" and
    rest1: "\<forall>d\<in>set ?days. date_le (Some (toISODate (reward_now e))) d" and
    tail: "sorted_wrt date_le ?days"
    by auto
  have next_le: "\<forall>d\<in>set ?days. date_le (stored_date user ?db') d"
    using stored_date_step [of user e boost db] rest0 rest1 by auto
  have step_le: "date_le (stored_date user db) (stored_date user ?db')"
    using stored_date_step [of user e boost db] first by (auto simp: date_le_refl)
  have "sorted_wrt date_le (map (stored_date user) (accrual_trace user ?db' calls))"
    using Cons.IH [of ?db'] next_le tail by simp
  moreover have "\<forall>d\<in>set (map (stored_date user) (accrual_trace user ?db' calls)).
      date_le (stored_date user db) d"
  proof
    fix d assume "d \<in> set (map (stored_date user) (accrual_trace user ?db' calls))"
    from trace_dates [OF this] show "date_le (stored_date user db) d"
      using step_le rest0 by auto
  qed
  ultimately show ?case using c by simp
qed

text \<open>
  C9 as stated: for every profile and every sequence of accruals with non-decreasing
  reference dates the stored date never goes back. It fails for a profile whose stored
  date lies after the first reference date: the task stores the date of the call whatever
  the stored one is.
\<close>

theorem last_activity_counterexample:
  "sorted_wrt date_le (map (\<lambda>c. Some (toISODate (reward_now (fst c)))) [(demo_env, None)]) \<and>
   map (stored_date ''u1'') (accrual_trace ''u1'' future_db [(demo_env, None)]) =
     [Some 20005, Some 20000] \<and>
   \<not> sorted_wrt date_le (map (stored_date ''u1'') (accrual_trace ''u1'' future_db [(demo_env, None)]))"
proof -
  have p: "profiles future_db ''u1'' = Some (demo_profile\<lparr>last_activity_date := Some 20005\<rparr>)"
    by (simp add: future_db_def)
  have u: "profile_update_ok demo_env" by (simp add: demo_env_def)
  have n: "toISODate (reward_now demo_env) = 20000" by (simp add: toISODate_def demo_env_def)
  have a: "stored_date ''u1'' future_db = Some 20005"
    by (simp add: stored_date_def p)
  have b: "stored_date ''u1'' (reward_task demo_env ''u1'' None future_db) = Some 20000"
    using stored_date_step_updated [of future_db "''u1''" demo_env None] p u n by simp
  show ?thesis by (simp add: a b)
qed

text \<open>
  C9, amended. Let the stored date of the user, followed by the reference dates of the
  calls in order, be non-decreasing (no stored date, \<^verbatim>\<open>NULL\<close>, comes before every date: this
  is a profile as provisioned). Then the stored date is non-decreasing over the whole
  sequence of accruals, from the state before the first call on. Every accrual that writes
  the profile stores the date of its call.
\<close>

theorem last_activity_monotone:
  assumes "sorted_wrt date_le
             (stored_date user db # map (\<lambda>c. Some (toISODate (reward_now (fst c)))) calls)"
  shows "sorted_wrt date_le (map (stored_date user) (accrual_trace user db calls)) \<and>
         (\<forall>e boost d. profiles d user \<noteq> None \<and> profile_update_ok e \<longrightarrow>
            stored_date user (reward_task e user boost d) = Some (toISODate (reward_now e)))"
  using trace_sorted [OF assms] stored_date_step_updated by blast

theorem last_activity_monotone_witness:
  "sorted_wrt date_le
     (stored_date ''u1'' demo_db #
      map (\<lambda>c. Some (toISODate (reward_now (fst c)))) [(demo_env, None), (demo_env_next, Some True)]) \<and>
   sorted_wrt date_le
     (map (stored_date ''u1'') (accrual_trace ''u1'' demo_db [(demo_env, None), (demo_env_next, Some True)])) \<and>
   stored_date ''u1'' (reward_task demo_env ''u1'' None demo_db) = Some 20000"
proof -
  have p: "profiles demo_db ''u1'' \<noteq> None" by (simp add: demo_db_def)
  have u: "profile_update_ok demo_env" by (simp add: demo_env_def)
  have s: "stored_date ''u1'' demo_db = Some 19999"
    by (simp add: stored_date_def demo_db_def demo_profile_def)
  have n: "toISODate (reward_now demo_env) = 20000" by (simp add: toISODate_def demo_env_def)
  have m: "toISODate (reward_now demo_env_next) = 20001"
    by (simp add: toISODate_def demo_env_next_def)
  have h: "sorted_wrt date_le
     (stored_date ''u1'' demo_db #
      map (\<lambda>c. Some (toISODate (reward_now (fst c)))) [(demo_env, None), (demo_env_next, Some True)])"
    by (simp add: s n m)
  from last_activity_monotone [OF h] p u n h show ?thesis by auto
qed

section \<open>Properties of the content screen\<close>

lemma lower_char_not_capital: "\<not> is_capital (lower_char c)"
proof -
  let ?n = "of_char c :: nat"
  show ?thesis
  proof (cases "(65 \<le> ?n \<and> ?n \<le> 90) \<or> (192 \<le> ?n \<and> ?n \<le> 222 \<and> ?n \<noteq> 215)")
    case True
    have l: "lower_char c = char_of (?n + 32)"
      unfolding lower_char_def Let_def using True by (rule if_P)
    from True have "?n + 32 < 256" by linarith
    then have "(?n + 32) mod 256 = ?n + 32" by (rule mod_less)
    then have "(of_char (lower_char c) :: nat) = ?n + 32"
      by (simp only: l of_char_of)
    with True show ?thesis unfolding is_capital_def by linarith
  next
    case False
    have "lower_char c = c"
      unfolding lower_char_def Let_def using False by (rule if_not_P)
    with False show ?thesis unfolding is_capital_def by simp
  qed
qed

lemma toLowerCase_no_capital: "c \<in> set (toLowerCase m) \<Longrightarrow> \<not> is_capital c"
  by (auto simp: toLowerCase_def lower_char_not_capital)

lemma upper_ascii_small:
  assumes "is_small c"
  shows "(of_char (upper_ascii c) :: nat) = of_char c - 32"
proof -
  from assms have c: "97 \<le> (of_char c :: nat) \<and> (of_char c :: nat) \<le> 122"
    by (simp add: is_small_def)
  have u: "upper_ascii c = char_of ((of_char c :: nat) - 32)"
    unfolding upper_ascii_def Let_def using c by (rule if_P)
  from c have "(of_char c :: nat) - 32 < 256" by linarith
  then have "((of_char c :: nat) - 32) mod 256 = of_char c - 32" by (rule mod_less)
  then show ?thesis by (simp only: u of_char_of)
qed

lemma upper_ascii_other:
  assumes "\<not> is_small c"
  shows "upper_ascii c = c"
proof -
  from assms have c: "\<not> (97 \<le> (of_char c :: nat) \<and> (of_char c :: nat) \<le> 122)"
    by (simp add: is_small_def)
  show ?thesis unfolding upper_ascii_def Let_def using c by (rule if_not_P)
qed

lemma ci_eq_small:
  assumes "is_small p" and "\<not> is_capital c"
  shows "ci_eq p c \<longleftrightarrow> c = p"
proof -
  from assms(1) have p: "97 \<le> (of_char p :: nat)" "(of_char p :: nat) \<le> 122"
    by (simp_all add: is_small_def)
  have "ci_eq p c \<longleftrightarrow> (of_char (upper_ascii p) :: nat) = of_char (upper_ascii c)"
    by (simp add: ci_eq_def)
  also have "\<dots> \<longleftrightarrow> (of_char p :: nat) = of_char c"
  proof (cases "is_small c")
    case True
    then have c: "97 \<le> (of_char c :: nat)" "(of_char c :: nat) \<le> 122"
      by (simp_all add: is_small_def)
    show ?thesis
      unfolding upper_ascii_small [OF assms(1)] upper_ascii_small [OF True]
      using p c by linarith
  next
    case False
    then have c: "\<not> (97 \<le> (of_char c :: nat) \<and> (of_char c :: nat) \<le> 122)"
      by (simp add: is_small_def)
    from assms(2) have d: "\<not> (65 \<le> (of_char c :: nat) \<and> (of_char c :: nat) \<le> 90)"
      by (simp add: is_capital_def)
    show ?thesis
      unfolding upper_ascii_small [OF assms(1)] upper_ascii_other [OF False]
      using p c d by linarith
  qed
  also have "\<dots> \<longleftrightarrow> c = p" by auto
  finally show ?thesis .
qed

lemma is_small_word: "is_small c \<Longrightarrow> is_word_char c"
  by (simp add: is_small_def is_word_char_def Let_def)

lemma match_literal_iff:
  "match_literal w s = Some rest \<longleftrightarrow> (\<exists>x. s = x @ rest \<and> list_all2 ci_eq w x)"
proof (induction w s rule: match_literal.induct)
  case (1 s)
  then show ?case by auto
next
  case (2 p ps)
  then show ?case by (auto simp: list_all2_Cons1)
next
  case (3 p ps c cs)
  then show ?case by (auto simp: list_all2_Cons1)
qed

lemma list_all2_ci_eq_small:
  assumes "\<forall>p\<in>set w. is_small p" and "\<forall>c\<in>set x. \<not> is_capital c"
  shows "list_all2 ci_eq w x \<longleftrightarrow> x = w"
  using assms
proof (induction w arbitrary: x)
  case Nil
  then show ?case by auto
next
  case (Cons p ps)
  then show ?case by (cases x) (auto simp: ci_eq_small)
qed

lemma banned_small: "w \<in> set banned_words \<Longrightarrow> (\<forall>p\<in>set w. is_small p) \<and> w \<noteq> []"
  by (auto simp: banned_words_def is_small_def)

lemma word_boundary_after_word:
  "is_word_char a \<Longrightarrow>
   word_boundary (Some a) (head_opt rest) \<longleftrightarrow> (rest = [] \<or> \<not> is_word_char (hd rest))"
  by (cases rest) (auto simp: word_boundary_def head_opt_def)

lemma word_boundary_before_word:
  "is_word_char b \<Longrightarrow>
   word_boundary prev (Some b) \<longleftrightarrow> (case prev of None \<Rightarrow> True | Some a \<Rightarrow> \<not> is_word_char a)"
  by (cases prev) (auto simp: word_boundary_def)

lemma match_alt_iff:
  assumes w: "w \<in> set banned_words" and s: "\<forall>c\<in>set s. \<not> is_capital c"
  shows "match_alt prev w s \<longleftrightarrow>
         (\<exists>rest. s = w @ rest \<and> (rest = [] \<or> \<not> is_word_char (hd rest)))"
proof -
  from banned_small [OF w] have small: "\<forall>p\<in>set w. is_small p" and ne: "w \<noteq> []" by auto
  from small ne have lw: "is_word_char (last w)" by (simp add: is_small_word)
  have lit: "match_literal w s = Some rest \<longleftrightarrow> s = w @ rest" for rest
  proof
    assume "match_literal w s = Some rest"
    then obtain x where x: "s = x @ rest" "list_all2 ci_eq w x"
      by (auto simp: match_literal_iff)
    from x(1) s have "\<forall>c\<in>set x. \<not> is_capital c" by auto
    with small x(2) have "x = w" by (simp add: list_all2_ci_eq_small)
    with x(1) show "s = w @ rest" by simp
  next
    assume "s = w @ rest"
    moreover from this s have "\<forall>c\<in>set w. \<not> is_capital c" by auto
    with small have "list_all2 ci_eq w w" by (simp add: list_all2_ci_eq_small)
    ultimately show "match_literal w s = Some rest" by (auto simp: match_literal_iff)
  qed
  show ?thesis
  proof
    assume m: "match_alt prev w s"
    then obtain rest where r: "match_literal w s = Some rest"
      by (auto simp: match_alt_def split: option.splits)
    with lit have eq: "s = w @ rest" by blast
    from m r ne eq have "word_boundary (Some (last w)) (head_opt rest)"
      by (simp add: match_alt_def)
    with lw eq show "\<exists>rest. s = w @ rest \<and> (rest = [] \<or> \<not> is_word_char (hd rest))"
      by (auto simp: word_boundary_after_word)
  next
    assume "\<exists>rest. s = w @ rest \<and> (rest = [] \<or> \<not> is_word_char (hd rest))"
    then obtain rest where eq: "s = w @ rest" and e: "rest = [] \<or> \<not> is_word_char (hd rest)"
      by auto
    from eq lit have r: "match_literal w s = Some rest" by blast
    from lw e have "word_boundary (Some (last w)) (head_opt rest)"
      by (simp add: word_boundary_after_word)
    with r ne eq show "match_alt prev w s" by (simp add: match_alt_def)
  qed
qed

lemma match_here_iff:
  assumes s: "\<forall>c\<in>set s. \<not> is_capital c"
  shows "match_here prev s \<longleftrightarrow>
         (case prev of None \<Rightarrow> True | Some a \<Rightarrow> \<not> is_word_char a) \<and>
         (\<exists>w\<in>set banned_words. \<exists>rest. s = w @ rest \<and> (rest = [] \<or> \<not> is_word_char (hd rest)))"
proof -
  have alt: "list_ex (\<lambda>w. match_alt prev w s) banned_words \<longleftrightarrow>
      (\<exists>w\<in>set banned_words. \<exists>rest. s = w @ rest \<and> (rest = [] \<or> \<not> is_word_char (hd rest)))"
    by (auto simp: list_ex_iff match_alt_iff [OF _ s])
  have "word_boundary prev (head_opt s) \<longleftrightarrow> (case prev of None \<Rightarrow> True | Some a \<Rightarrow> \<not> is_word_char a)"
    if "w \<in> set banned_words" and "s = w @ rest" for w rest
  proof -
    from banned_small [OF that(1)] obtain p ps where w: "w = p # ps" and "is_small p"
      by (cases w) auto
    then have "is_word_char p" by (simp add: is_small_word)
    moreover from w that(2) have "head_opt s = Some p" by (simp add: head_opt_def)
    ultimately show ?thesis by (simp add: word_boundary_before_word)
  qed
  with alt show ?thesis unfolding match_here_def by blast
qed

lemma regex_test_iff:
  "regex_test prev s \<longleftrightarrow>
   (\<exists>pre post. s = pre @ post \<and> match_here (if pre = [] then prev else Some (last pre)) post)"
proof (induction s arbitrary: prev)
  case Nil
  then show ?case by simp
next
  case (Cons c cs)
  show ?case
  proof
    assume "regex_test prev (c # cs)"
    then consider "match_here prev (c # cs)" | "regex_test (Some c) cs" by auto
    then show "\<exists>pre post. c # cs = pre @ post \<and>
        match_here (if pre = [] then prev else Some (last pre)) post"
    proof cases
      case 1
      then have "c # cs = [] @ (c # cs) \<and> match_here (if [] = [] then prev else Some (last [])) (c # cs)"
        by simp
      then show ?thesis by blast
    next
      case 2
      then obtain pre post where "cs = pre @ post"
        "match_here (if pre = [] then Some c else Some (last pre)) post"
        using Cons.IH by blast
      then have "c # cs = (c # pre) @ post \<and>
          match_here (if c # pre = [] then prev else Some (last (c # pre))) post"
        by auto
      then show ?thesis by blast
    qed
  next
    assume "\<exists>pre post. c # cs = pre @ post \<and>
        match_here (if pre = [] then prev else Some (last pre)) post"
    then obtain pre post where eq: "c # cs = pre @ post"
      and m: "match_here (if pre = [] then prev else Some (last pre)) post" by blast
    show "regex_test prev (c # cs)"
    proof (cases pre)
      case Nil
      with eq m show ?thesis by auto
    next
      case (Cons a pre')
      with eq have "a = c" "cs = pre' @ post" by auto
      moreover from m Cons \<open>a = c\<close>
      have "match_here (if pre' = [] then Some c else Some (last pre')) post" by auto
      ultimately have "regex_test (Some c) cs" using Cons.IH by blast
      then show ?thesis by simp
    qed
  qed
qed

lemma isHarmful_whole_word:
  "isHarmful msg \<longleftrightarrow>
   (\<exists>pre w post. toLowerCase msg = pre @ w @ post \<and> w \<in> set banned_words \<and>
      (pre = [] \<or> \<not> is_word_char (last pre)) \<and> (post = [] \<or> \<not> is_word_char (hd post)))"
proof -
  have low: "\<forall>c\<in>set (toLowerCase msg). \<not> is_capital c"
    by (simp add: toLowerCase_no_capital)
  have here: "match_here (if pre = [] then None else Some (last pre)) s \<longleftrightarrow>
      (pre = [] \<or> \<not> is_word_char (last pre)) \<and>
      (\<exists>w\<in>set banned_words. \<exists>rest. s = w @ rest \<and> (rest = [] \<or> \<not> is_word_char (hd rest)))"
    if "toLowerCase msg = pre @ s" for pre s
  proof -
    from that low have "\<forall>c\<in>set s. \<not> is_capital c" by auto
    from match_here_iff [OF this] show ?thesis by (cases "pre = []") auto
  qed
  show ?thesis
  proof
    assume "isHarmful msg"
    then obtain pre s where eq: "toLowerCase msg = pre @ s"
      and m: "match_here (if pre = [] then None else Some (last pre)) s"
      unfolding isHarmful_def regex_test_iff by blast
    from m here [OF eq] obtain w rest where
      "pre = [] \<or> \<not> is_word_char (last pre)" "w \<in> set banned_words" "s = w @ rest"
      "rest = [] \<or> \<not> is_word_char (hd rest)"
      by blast
    with eq show "\<exists>pre w post. toLowerCase msg = pre @ w @ post \<and> w \<in> set banned_words \<and>
      (pre = [] \<or> \<not> is_word_char (last pre)) \<and> (post = [] \<or> \<not> is_word_char (hd post))"
      by blast
  next
    assume "\<exists>pre w post. toLowerCase msg = pre @ w @ post \<and> w \<in> set banned_words \<and>
      (pre = [] \<or> \<not> is_word_char (last pre)) \<and> (post = [] \<or> \<not> is_word_char (hd post))"
    then obtain pre w post where eq: "toLowerCase msg = pre @ (w @ post)"
      and w: "w \<in> set banned_words" and a: "pre = [] \<or> \<not> is_word_char (last pre)"
      and b: "post = [] \<or> \<not> is_word_char (hd post)"
      by auto
    from w b have "\<exists>v\<in>set banned_words. \<exists>rest. w @ post = v @ rest \<and>
        (rest = [] \<or> \<not> is_word_char (hd rest))"
      by blast
    then have m: "match_here (if pre = [] then None else Some (last pre)) (w @ post)"
      unfolding here [OF eq] using a by (intro conjI)
    have "\<exists>p s. toLowerCase msg = p @ s \<and> match_here (if p = [] then None else Some (last p)) s"
      using eq m by (intro exI conjI)
    then have "regex_test None (toLowerCase msg)"
      by (simp only: regex_test_iff)
    then show "isHarmful msg" by (simp add: isHarmful_def)
  qed
qed

section \<open>Properties of the turn handler\<close>

lemma reward_task_frame:
  "conversations (reward_task e user boost db) = conversations db \<and>
   messages (reward_task e user boost db) = messages db \<and>
   style_packs (reward_task e user boost db) = style_packs db"
  by (cases "profiles db user") (simp_all add: reward_task_def Let_def split: prod.splits)

lemma save_messages_messages:
  "messages (save_messages e cid msg ai tokens time db) =
     messages db @ (if user_msg_insert_ok e then [user_message_row e cid msg] else []) @
     (if ai_msg_insert_ok e then [ai_message_row e cid ai tokens time] else [])"
  by (simp add: save_messages_def Let_def)

lemma resolve_conversation_frame:
  "resolve_conversation e user req db = Inr (cid, db1) \<Longrightarrow>
   messages db1 = messages db \<and> profiles db1 = profiles db \<and> rewards db1 = rewards db"
  by (auto simp: resolve_conversation_def create_conversation_def split: option.splits if_splits)

lemma handler_success:
  assumes "reply (handler e req db) = Success body"
  shows "\<exists>user cid db1 contents aiResponse tokens.
           resolve_conversation e user req db = Inr (cid, db1) \<and>
           read_gemini (gemini e) = Inr (aiResponse, tokens) \<and>
           handler e req db = finish_turn e user req cid contents aiResponse tokens db1"
  using assms
  by (auto simp: handler_def run_turn_def Let_def split: if_splits sum.splits prod.splits)

lemma finish_turn_messages:
  "messages (db_after (finish_turn e user req cid contents ai tokens db)) =
     messages db @ (if user_msg_insert_ok e then [user_message_row e cid (message req)] else []) @
     (if ai_msg_insert_ok e then [ai_message_row e cid ai tokens (endTime e - startTime e)] else [])"
  by (simp add: finish_turn_db reward_task_frame save_messages_messages)

lemma finish_turn_harmful:
  "isHarmful (message req) \<Longrightarrow>
   profiles (db_after (finish_turn e user req cid contents ai tokens db)) = profiles db \<and>
   rewards (db_after (finish_turn e user req cid contents ai tokens db)) = rewards db"
  by (simp add: finish_turn_db save_messages_other)

text \<open>
  C4 as stated: a message containing a banned word as a substring, in any case, gets no
  reward. The screen looks for whole words: \<^verbatim>\<open>hateful\<close> contains \<^verbatim>\<open>hate\<close>, and the turn
  answers \<open>pointsAwarded = true\<close>, the profile is updated and a ledger entry is appended.
\<close>

theorem substring_screen_counterexample:
  "spec_banned_substring (message hateful_request) \<and>
   reply (handler demo_env hateful_request demo_db) =
     Success \<lparr>response = ''Hello!'', res_conversationId = ''c1'', tokensUsed = 42,
              responseTime = 250, pointsAwarded = True\<rparr> \<and>
   rewards (db_after (handler demo_env hateful_request demo_db)) =
     [\<lparr>rw_user_id = ''u1'', rw_type = ''streak'', rw_points = 6,
       rw_description = ''Daily streak: 4 days''\<rparr>] \<and>
   profiles (db_after (handler demo_env hateful_request demo_db)) ''u1'' =
     Some \<lparr>total_points = 31, current_streak = 4, last_activity_date = Some 20000\<rparr>"
  by code_simp

text \<open>
  C4, amended. In every turn that answers, \<open>pointsAwarded\<close> is false exactly when the
  screen flags the message, and the screen flags it exactly when the lower-cased message
  holds a banned word between two word boundaries: the word is not preceded and not
  followed by a letter, a digit or an underscore. A flagged turn leaves profiles and
  ledger as they were. Flagged or not, the rows of the user's message and of the
  assistant's answer are appended, each when the storage layer accepts its insert.
\<close>

theorem screen_suppresses_reward:
  assumes "reply (handler e req db) = Success body"
  shows "pointsAwarded body = (\<not> isHarmful (message req)) \<and>
         (isHarmful (message req) \<longrightarrow>
            profiles (db_after (handler e req db)) = profiles db \<and>
            rewards (db_after (handler e req db)) = rewards db) \<and>
         messages (db_after (handler e req db)) =
           messages db @
           (if user_msg_insert_ok e
            then [user_message_row e (res_conversationId body) (message req)] else []) @
           (if ai_msg_insert_ok e
            then [ai_message_row e (res_conversationId body) (response body) (tokensUsed body)
                    (responseTime body)] else []) \<and>
         (isHarmful (message req) \<longleftrightarrow>
            (\<exists>pre w post. toLowerCase (message req) = pre @ w @ post \<and> w \<in> set banned_words \<and>
               (pre = [] \<or> \<not> is_word_char (last pre)) \<and>
               (post = [] \<or> \<not> is_word_char (hd post))))"
proof -
  from handler_success [OF assms] obtain user cid db1 contents aiResponse tokens where
    r: "resolve_conversation e user req db = Inr (cid, db1)" and
    h: "handler e req db = finish_turn e user req cid contents aiResponse tokens db1"
    by blast
  from assms h have b: "body = \<lparr>response = aiResponse, res_conversationId = cid,
      tokensUsed = tokens, responseTime = endTime e - startTime e,
      pointsAwarded = (\<not> isHarmful (message req))\<rparr>"
    by (simp add: finish_turn_reply)
  note f = resolve_conversation_frame [OF r]
  have 1: "pointsAwarded body = (\<not> isHarmful (message req))" by (simp add: b)
  have 2: "isHarmful (message req) \<longrightarrow>
            profiles (db_after (handler e req db)) = profiles db \<and>
            rewards (db_after (handler e req db)) = rewards db"
    by (simp add: h finish_turn_harmful f)
  have 3: "messages (db_after (handler e req db)) =
           messages db @
           (if user_msg_insert_ok e
            then [user_message_row e (res_conversationId body) (message req)] else []) @
           (if ai_msg_insert_ok e
            then [ai_message_row e (res_conversationId body) (response body) (tokensUsed body)
                    (responseTime body)] else [])"
    by (simp add: h finish_turn_messages f b)
  from 1 2 3 isHarmful_whole_word [of "message req"] show ?thesis by blast
qed


theorem screen_suppresses_reward_witness:
  "reply (handler demo_env hate_request demo_db) =
     Success \<lparr>response = ''Hello!'', res_conversationId = ''c1'', tokensUsed = 42,
              responseTime = 250, pointsAwarded = False\<rparr> \<and>
   isHarmful (message hate_request) \<and>
   profiles (db_after (handler demo_env hate_request demo_db)) = profiles demo_db \<and>
   rewards (db_after (handler demo_env hate_request demo_db)) = rewards demo_db \<and>
   length (messages (db_after (handler demo_env hate_request demo_db))) = 2"
proof -
  have r: "reply (handler demo_env hate_request demo_db) =
     Success \<lparr>response = ''Hello!'', res_conversationId = ''c1'', tokensUsed = 42,
              responseTime = 250, pointsAwarded = False\<rparr>"
    by code_simp
  have u: "user_msg_insert_ok demo_env" "ai_msg_insert_ok demo_env" "messages demo_db = []"
    by (simp_all add: demo_env_def demo_db_def)
  from screen_suppresses_reward [OF r] r u show ?thesis by simp
qed

lemma run_turn_conversations:
  "conversations (db_after (run_turn e user req cid db)) = conversations db"
  by (auto simp: run_turn_def Let_def finish_turn_db reward_task_frame save_messages_other
      split: sum.splits prod.splits)

lemma run_turn_conversationId:
  "reply (run_turn e user req cid db) = Success body \<Longrightarrow> res_conversationId body = cid"
  by (auto simp: run_turn_def Let_def finish_turn_reply split: if_splits sum.splits prod.splits)

text \<open>
  C6. A turn whose request names no conversation (the field is absent, or empty) and
  whose insert the storage layer accepts creates one conversation, owned by the caller;
  its title is the first 50 characters of the message, followed by \<^verbatim>\<open>...\<close> exactly when
  the message is longer than 50 characters. The id in the answer of a successful turn is
  the id of the new conversation.
\<close>

theorem new_conversation_title:
  assumes "\<not> is_options e" and "authenticate e = Inr user"
    and "\<not> truthy (conversationId req)" and "conv_insert e = Some newId"
  shows "conversations (db_after (handler e req db)) =
           conversations db @
           [\<lparr>conv_id = newId, conv_user_id = user,
             title = take 50 (message req) @ (if length (message req) > 50 then ''...'' else [])\<rparr>] \<and>
         (\<forall>body. reply (handler e req db) = Success body \<longrightarrow> res_conversationId body = newId)"
proof -
  let ?db1 = "db\<lparr>conversations := conversations db @
      [\<lparr>conv_id = newId, conv_user_id = user, title = new_title (message req)\<rparr>]\<rparr>"
  from assms(3,4) have "resolve_conversation e user req db = Inr (newId, ?db1)"
    by (auto simp: resolve_conversation_def create_conversation_def truthy_def split: option.splits)
  with assms(1,2) have h: "handler e req db = run_turn e user req newId ?db1"
    by (simp add: handler_def)
  show ?thesis
    unfolding h using run_turn_conversationId [of e user req newId ?db1]
    by (simp add: run_turn_conversations new_title_def)
qed

theorem new_conversation_title_witness:
  "\<not> is_options demo_env \<and> authenticate demo_env = Inr ''u1'' \<and>
   \<not> truthy (conversationId long_request) \<and> conv_insert demo_env = Some ''c1'' \<and>
   length (message long_request) = 62 \<and>
   conversations (db_after (handler demo_env long_request demo_db)) =
     [\<lparr>conv_id = ''c1'', conv_user_id = ''u1'',
       title = ''Please explain how the streak bonus is computed fo...''\<rparr>] \<and>
   reply (handler demo_env long_request demo_db) =
     Success \<lparr>response = ''Hello!'', res_conversationId = ''c1'', tokensUsed = 42,
              responseTime = 250, pointsAwarded = True\<rparr>"
proof -
  have a: "\<not> is_options demo_env" by (simp add: demo_env_def)
  have b: "authenticate demo_env = Inr ''u1''" by code_simp
  have c: "\<not> truthy (conversationId long_request)" by (simp add: long_request_def truthy_def)
  have d: "conv_insert demo_env = Some ''c1''" by (simp add: demo_env_def)
  have l: "length (message long_request) = 62" by (simp add: long_request_def)
  have m: "conversations demo_db = []" by (simp add: demo_db_def)
  have r: "reply (handler demo_env long_request demo_db) =
     Success \<lparr>response = ''Hello!'', res_conversationId = ''c1'', tokensUsed = 42,
              responseTime = 250, pointsAwarded = True\<rparr>"
    by code_simp
  from new_conversation_title [OF a b c d, of demo_db] a b c d l r show ?thesis
    by (simp add: m long_request_def)
qed

text \<open>
  C7. When the completion service, once called, answers with a non-success status or
  without the text, the request fails with one of the two upstream errors, which the
  caller receives; no message row is written, neither the user's nor the assistant's,
  and the rewards task does not run: profiles and ledger are as before.
\<close>

theorem upstream_error_no_rows:
  assumes "upstream_failure (gemini e)" and "prompt_sent (handler e req db) \<noteq> None"
  shows "(\<exists>err. reply (handler e req db) = Failure err \<and> is_upstream_error err) \<and>
         messages (db_after (handler e req db)) = messages db \<and>
         profiles (db_after (handler e req db)) = profiles db \<and>
         rewards (db_after (handler e req db)) = rewards db"
proof -
  from assms(1) obtain err where g: "read_gemini (gemini e) = Inl err" and u: "is_upstream_error err"
    by (cases "gemini e" rule: upstream_failure.cases) (auto simp: read_gemini_def)
  from assms(2) obtain user cid db1 where
    r: "resolve_conversation e user req db = Inr (cid, db1)" and
    h: "handler e req db = run_turn e user req cid db1" and k: "history_ok e"
    by (auto simp: handler_def run_turn_def split: if_splits sum.splits prod.splits)
  from g k have t: "reply (run_turn e user req cid db1) = Failure err"
    "db_after (run_turn e user req cid db1) = db1"
    by (simp_all add: run_turn_def Let_def)
  from resolve_conversation_frame [OF r] u show ?thesis
    by (auto simp: h t)
qed

theorem upstream_error_no_rows_witness:
  "upstream_failure (gemini failing_env) \<and>
   prompt_sent (handler failing_env hate_request eleven_db) \<noteq> None \<and>
   reply (handler failing_env hate_request eleven_db) = Failure (GeminiApiError 503 ''unavailable'') \<and>
   messages (db_after (handler failing_env hate_request eleven_db)) = messages eleven_db"
proof -
  have a: "upstream_failure (gemini failing_env)" by code_simp
  have b: "prompt_sent (handler failing_env hate_request eleven_db) \<noteq> None" by code_simp
  have c: "reply (handler failing_env hate_request eleven_db) = Failure (GeminiApiError 503 ''unavailable'')"
    by code_simp
  from upstream_error_no_rows [OF a b] a b c show ?thesis by simp
qed

text \<open>
  The prompt is ordered as claimed: the system turn, the fixed acknowledgment, the
  loaded history, the new message; the history has at most 10 turns.
\<close>

lemma run_turn_prompt:
  "prompt_sent (run_turn e user req cid db) =
     (if history_ok e
      then Some (build_messages (system_prompt_for req db) (load_history cid db) (message req))
      else None)"
  by (simp add: run_turn_def Let_def finish_turn_def split: sum.splits prod.splits)

lemma prompt_order:
  assumes "prompt_sent (handler e req db) = Some contents"
  shows "\<exists>systemPrompt (messageHistory :: ChatMessage list).
           length messageHistory \<le> 10 \<and>
           contents =
             [(GeminiUser, systemPrompt),
              (GeminiModel, ''I understand. I will respond according to this personality and style.'')] @
             map (\<lambda>m. if role m = RoleUser then (GeminiUser, content m) else (GeminiModel, content m))
               messageHistory @
             [(GeminiUser, message req)]"
proof -
  from assms obtain user cid db1 where
    h: "handler e req db = run_turn e user req cid db1"
    by (auto simp: handler_def split: if_splits sum.splits prod.splits)
  from assms h have
    c: "contents = build_messages (system_prompt_for req db1) (load_history cid db1) (message req)"
    by (simp add: run_turn_prompt split: if_splits)
  have l: "length (load_history cid db1) \<le> 10" by (simp add: load_history_def)
  have "length (load_history cid db1) \<le> 10 \<and>
        contents =
          [(GeminiUser, system_prompt_for req db1),
           (GeminiModel, ''I understand. I will respond according to this personality and style.'')] @
          map (\<lambda>m. if role m = RoleUser then (GeminiUser, content m) else (GeminiModel, content m))
            (load_history cid db1) @
          [(GeminiUser, message req)]"
    using l by (simp add: c build_messages_def)
  then show ?thesis by blast
qed

text \<open>
  C5, the history. The query sorts by \<open>created_at\<close> ascending and keeps the first 10 rows,
  so a conversation of eleven messages sends \<open>m1\<close> to \<open>m10\<close> and leaves out \<open>m11\<close>, the
  latest one; the most recent ten would be \<open>m2\<close> to \<open>m11\<close>. The comment on line 95 of
  the source reads "last 10 messages for context".
\<close>

theorem history_keeps_oldest_ten:
  "map content (load_history ''c7'' eleven_db) =
     [''m1'', ''m2'', ''m3'', ''m4'', ''m5'', ''m6'', ''m7'', ''m8'', ''m9'', ''m10''] \<and>
   map content (spec_recent_history ''c7'' eleven_db) =
     [''m2'', ''m3'', ''m4'', ''m5'', ''m6'', ''m7'', ''m8'', ''m9'', ''m10'', ''m11''] \<and>
   prompt_sent (handler demo_env next_request eleven_db) =
     Some [(GeminiUser, ''You are a helpful AI assistant.''),
           (GeminiModel, ''I understand. I will respond according to this personality and style.''),
           (GeminiUser, ''m1''), (GeminiModel, ''m2''), (GeminiUser, ''m3''), (GeminiModel, ''m4''),
           (GeminiUser, ''m5''), (GeminiModel, ''m6''), (GeminiUser, ''m7''), (GeminiModel, ''m8''),
           (GeminiUser, ''m9''), (GeminiModel, ''m10''), (GeminiUser, ''m12'')]"
  by code_simp


end
